theory Spec2Isabelle
  imports Complex_Main
begin

section \<open>Exceptions\<close>

text \<open>
  One constructor per exception class that the modelled code raises or lets through; the
  string is the message. \<open>DatabaseError\<close>, \<open>APIError\<close> and \<open>ValidationError\<close> are
  classes of modules/exceptions.py. \<open>HTTPStatusError\<close> (raised by
  \<open>response.raise_for_status()\<close> for a 4xx or 5xx response, with the status code) and
  \<open>RequestError\<close> (transport failures) are the two subclasses of \<open>httpx.HTTPError\<close>.
  \<open>Sqlite3Error\<close> stands for \<open>sqlite3.Error\<close> and its subclasses. The rest are
  built-in Python exceptions.
\<close>

datatype error =
    DatabaseError string
  | APIError string
  | ValidationError string
  | HTTPStatusError nat string
  | RequestError string
  | Sqlite3Error string
  | TypeError string
  | ValueError string
  | OverflowError string
  | NameError string
  | AttributeError string
  | KeyError string

text \<open>\<open>e.__class__.__name__\<close>, the "error" entry of \<open>BaseError.to_dict\<close>.\<close>

fun class_name :: "error \<Rightarrow> string" where
  "class_name (DatabaseError m) = ''DatabaseError''"
| "class_name (APIError m) = ''APIError''"
| "class_name (ValidationError m) = ''ValidationError''"
| "class_name (HTTPStatusError code m) = ''HTTPStatusError''"
| "class_name (RequestError m) = ''RequestError''"
| "class_name (Sqlite3Error m) = ''Error''"
| "class_name (ValueError m) = ''ValueError''"
| "class_name (OverflowError m) = ''OverflowError''"
| "class_name (TypeError m) = ''TypeError''"
| "class_name (NameError m) = ''NameError''"
| "class_name (AttributeError m) = ''AttributeError''"
| "class_name (KeyError m) = ''KeyError''"

text \<open>\<open>str(e)\<close>: the message.\<close>

fun str_of :: "error \<Rightarrow> string" where
  "str_of (DatabaseError m) = m"
| "str_of (APIError m) = m"
| "str_of (ValidationError m) = m"
| "str_of (HTTPStatusError code m) = m"
| "str_of (RequestError m) = m"
| "str_of (Sqlite3Error m) = m"
| "str_of (ValueError m) = m"
| "str_of (OverflowError m) = m"
| "str_of (TypeError m) = m"
| "str_of (NameError m) = m"
| "str_of (AttributeError m) = m"
| "str_of (KeyError m) = m"

text \<open>\<open>isinstance(e, httpx.HTTPError)\<close>, the test of \<open>except httpx.HTTPError\<close>.\<close>

fun is_HTTPError :: "error \<Rightarrow> bool" where
  "is_HTTPError (HTTPStatusError code m) = True"
| "is_HTTPError (RequestError m) = True"
| "is_HTTPError e = False"

text \<open>\<open>isinstance(e, sqlite3.Error)\<close>, the test of \<open>except sqlite3.Error\<close>.\<close>

fun is_sqlite3_Error :: "error \<Rightarrow> bool" where
  "is_sqlite3_Error (Sqlite3Error m) = True"
| "is_sqlite3_Error e = False"

section \<open>DatabasePool (database/connection.py)\<close>

text \<open>
  A connection object is identified by a number. The pool is the object state of
  \<open>DatabasePool\<close>: the configured capacity and timeout (in seconds, an \<open>int\<close>), the
  asyncio queue of idle connections (created with \<open>maxsize = max_connections\<close>), the
  set \<open>_active_connections\<close>, the
  counters of the \<open>Metrics\<close> object and the \<open>_metrics\<close> dictionary. \<open>closed_conns\<close> is the
  set of connection objects on which \<open>close()\<close> has been called.
\<close>

type_synonym conn = nat

record pool =
  max_connections :: int
  timeout :: int
  connection_queue :: "conn list"
  active_connections :: "conn set"
  closed_conns :: "conn set"
  counters :: "string \<Rightarrow> int"
  pool_metrics :: "string \<Rightarrow> int"

text \<open>
  \<open>DatabasePool.__init__\<close>: empty queue, empty active set, the four metrics at 0. Any
  two \<open>int\<close>s are accepted as capacity and timeout.
\<close>

definition init_pool :: "int \<Rightarrow> int \<Rightarrow> pool" where
  "init_pool m t =
     \<lparr> max_connections = m, timeout = t, connection_queue = [], active_connections = {},
       closed_conns = {}, counters = (\<lambda>_. 0), pool_metrics = (\<lambda>_. 0) \<rparr>"

text \<open>\<open>Metrics.increment(metric)\<close> with the default value 1.\<close>

definition increment :: "string \<Rightarrow> pool \<Rightarrow> pool" where
  "increment metric s = s\<lparr> counters := (counters s)(metric := counters s metric + 1) \<rparr>"

text \<open>\<open>self._metrics[key] += 1\<close>.\<close>

definition bump :: "string \<Rightarrow> pool \<Rightarrow> pool" where
  "bump key s = s\<lparr> pool_metrics := (pool_metrics s)(key := pool_metrics s key + 1) \<rparr>"

text \<open>
  \<open>asyncio.Queue.full()\<close>: a queue whose maxsize is not positive is unbounded.
\<close>

definition queue_full :: "pool \<Rightarrow> bool" where
  "queue_full s = (0 < max_connections s \<and> max_connections s \<le> int (length (connection_queue s)))"

text \<open>
  \<open>_validate_connection_sync\<close>: \<open>SELECT 1\<close> on the connection. On a closed connection
  the cursor raises \<open>sqlite3.ProgrammingError\<close>, a \<open>sqlite3.Error\<close>, so the result is
  False; otherwise the outcome is the store's, given by \<open>probe\<close>.
\<close>

definition validate_connection_sync :: "(conn \<Rightarrow> bool) \<Rightarrow> pool \<Rightarrow> conn \<Rightarrow> bool" where
  "validate_connection_sync probe s c = (c \<notin> closed_conns s \<and> probe c)"

text \<open>\<open>_close_connection\<close>: close, then discard from the active set.\<close>

definition close_connection :: "conn \<Rightarrow> pool \<Rightarrow> pool" where
  "close_connection c s =
     s\<lparr> closed_conns := insert c (closed_conns s), active_connections := active_connections s - {c} \<rparr>"

text \<open>
  \<open>_create_connection\<close>. The argument is what \<open>sqlite3.connect\<close> does: it yields a new
  connection object or raises. A \<open>sqlite3.Error\<close> is re-raised as \<open>DatabaseError\<close>; any
  other exception (\<open>ValueError\<close> for a NUL character in the path, say) is not caught
  here.
\<close>

definition create_connection :: "error + conn \<Rightarrow> error + conn" where
  "create_connection connect =
     (case connect of
        Inl e \<Rightarrow>
          if is_sqlite3_Error e
          then Inl (DatabaseError (''Failed to create connection: '' @ str_of e))
          else Inl e
      | Inr c \<Rightarrow> Inr c)"

text \<open>
  The outer \<open>except Exception as e\<close> of \<open>get_connection\<close>: count the error and raise a
  \<open>DatabaseError\<close> that wraps the message.
\<close>

definition get_failed :: "error \<Rightarrow> pool \<Rightarrow> pool \<times> (error + conn)" where
  "get_failed e s =
     (increment ''connection_errors'' s,
      Inl (DatabaseError (''Failed to get connection: '' @ str_of e)))"

text \<open>
  The second half of \<open>get_connection\<close>: create a connection if the active set is below
  the limit (\<open>len(self._active_connections) < self.max_connections\<close>), otherwise raise
  "Maximum connections reached" (caught by the outer handler).
\<close>

definition under_limit :: "pool \<Rightarrow> bool" where
  "under_limit s = (int (card (active_connections s)) < max_connections s)"

definition create_if_under_limit :: "error + conn \<Rightarrow> pool \<Rightarrow> pool \<times> (error + conn)" where
  "create_if_under_limit connect s =
     (if under_limit s then
        (case create_connection connect of
           Inl e \<Rightarrow> get_failed e s
         | Inr c \<Rightarrow>
             (increment ''connection_success''
                (bump ''total_connections''
                   (s\<lparr> active_connections := insert c (active_connections s) \<rparr>)),
              Inr c))
      else get_failed (DatabaseError ''Maximum connections reached'') s)"


definition wait_for_idle :: "(conn \<Rightarrow> bool) \<Rightarrow> pool \<Rightarrow> pool \<times> conn option" where
  "wait_for_idle probe s =
     (case connection_queue s of
        [] \<Rightarrow> (bump ''timeouts'' s, None)
      | c # rest \<Rightarrow>
          if timeout s \<le> 0 then (bump ''timeouts'' s, None)
          else
            (let s1 = s\<lparr> connection_queue := rest \<rparr> in
             if validate_connection_sync probe s1 c
             then (increment ''connection_success'' s1, Some c)
             else (close_connection c s1, None)))"

text \<open>
  \<open>get_connection\<close>: the connection found idle, or else the second half.
\<close>

definition get_connection ::
  "(conn \<Rightarrow> bool) \<Rightarrow> error + conn \<Rightarrow> pool \<Rightarrow> pool \<times> (error + conn)" where
  "get_connection probe connect s =
     (case wait_for_idle probe s of
        (s1, Some c) \<Rightarrow> (s1, Inr c)
      | (s1, None) \<Rightarrow> create_if_under_limit connect s1)"

text \<open>
  \<open>return_connection\<close>. A connection that is not in the active set is ignored. Otherwise
  \<open>await queue.put(conn)\<close>: \<open>put\<close> never raises \<open>QueueFull\<close> (only \<open>put_nowait\<close> does),
  it waits for a free slot; the lock is held meanwhile, so no slot can appear and the
  call never returns. That outcome is \<open>None\<close>.
\<close>

definition return_connection :: "conn \<Rightarrow> pool \<Rightarrow> pool option" where
  "return_connection c s =
     (if c \<in> active_connections s then
        (if queue_full s then None
         else Some (increment ''connection_return_success''
                      (s\<lparr> connection_queue := connection_queue s @ [c] \<rparr>)))
      else Some s)"


subsection \<open>Callers: who holds which connection\<close>

text \<open>
  The pool itself keeps no record of the connections that are checked out. To state
  properties about them, a run pairs the pool with the set \<open>out\<close> of connections that
  callers currently hold: a successful \<open>get_connection\<close> adds its result, a
  \<open>return_connection\<close> removes its argument. The lock serialises the calls, so a run
  is a list of events; an acquire carries what the store does during the call (the probe
  and the outcome of \<open>sqlite3.connect\<close>).
\<close>

datatype event = Acquire "conn \<Rightarrow> bool" "error + conn" | Release conn

type_synonym pstate = "pool \<times> conn set"

fun step :: "event \<Rightarrow> pstate \<Rightarrow> pstate option" where
  "step (Acquire probe connect) (s, out) =
     (case get_connection probe connect s of
        (s', Inl e) \<Rightarrow> Some (s', out)
      | (s', Inr c) \<Rightarrow> Some (s', insert c out))"
| "step (Release c) (s, out) =
     (case return_connection c s of
        None \<Rightarrow> None
      | Some s' \<Rightarrow> Some (s', out - {c}))"


text \<open>
  The states a run goes through, the first one included. A release that never returns
  keeps the lock for ever, so the run ends there.
\<close>

fun trace :: "event list \<Rightarrow> pstate \<Rightarrow> pstate list" where
  "trace [] st = [st]"
| "trace (e # es) st =
     st # (case step e st of None \<Rightarrow> [] | Some st' \<Rightarrow> trace es st')"


text \<open>The numbers of the invariant: checked out, idle, size of the active set.\<close>

definition checked_out :: "pstate \<Rightarrow> nat" where
  "checked_out st = card (snd st)"

definition idle :: "pstate \<Rightarrow> nat" where
  "idle st = length (connection_queue (fst st))"

definition active_set_size :: "pstate \<Rightarrow> nat" where
  "active_set_size st = card (active_connections (fst st))"

definition pool_invariant :: "pstate \<Rightarrow> bool" where
  "pool_invariant st =
     (checked_out st + idle st = active_set_size st \<and>
      int (active_set_size st) \<le> max_connections (fst st))"

text \<open>
  The structural invariant behind the numbers: the idle queue holds no connection twice,
  idle and checked-out connections are disjoint and together they are the active set.
\<close>

definition partitioned :: "pstate \<Rightarrow> bool" where
  "partitioned st =
     (let s = fst st; out = snd st in
      finite (active_connections s) \<and> distinct (connection_queue s) \<and>
      set (connection_queue s) \<inter> out = {} \<and>
      set (connection_queue s) \<union> out = active_connections s \<and>
      int (card (active_connections s)) \<le> max_connections s)"

subsection \<open>close_all\<close>

text \<open>A name in single quotes, as Python prints it in its messages.\<close>

definition quoted :: "string \<Rightarrow> string" where
  "quoted name = [CHR 0x27] @ name @ [CHR 0x27]"

text \<open>
  \<open>close_all\<close>. The loop over the queue evaluates
  \<open>await self._connection_queue.get_nowait()\<close>: \<open>get_nowait()\<close> is an ordinary method, it
  removes the head of the queue and returns the connection, and \<open>await\<close> on a
  \<open>sqlite3.Connection\<close> raises \<open>TypeError\<close>. The handler catches \<open>asyncio.QueueEmpty\<close>
  only, so the \<open>TypeError\<close> leaves \<open>close_all\<close> (the lock is released by
  \<open>async with\<close>) before any \<open>close()\<close> is called. With an empty queue the loop is
  skipped, every connection of the active set is closed and the set is cleared.
\<close>

definition close_all :: "pool \<Rightarrow> pool \<times> (error + unit)" where
  "close_all s =
     (case connection_queue s of
        c # rest \<Rightarrow>
          (s\<lparr> connection_queue := rest \<rparr>,
           Inl (TypeError (''object sqlite3.Connection can'' @ [CHR 0x27] @
                           ''t be used in '' @ quoted ''await'' @ '' expression'')))
      | [] \<Rightarrow>
          (s\<lparr> closed_conns := closed_conns s \<union> active_connections s, active_connections := {} \<rparr>,
           Inr ()))"

subsection \<open>The pool's lock and the tasks that call the pool\<close>

text \<open>
  asyncio runs one task at a time and switches tasks only at an \<open>await\<close> that suspends.
  Both \<open>get_connection\<close> and \<open>return_connection\<close> run their whole body inside
  \<open>async with self._lock\<close>. A task is described by where it is suspended:
  before the lock, inside the lock at \<open>wait_for(self._connection_queue.get(), ...)\<close>
  with an empty queue and a positive timeout, inside the lock at \<open>self._connection_queue.put(conn)\<close> with a
  full queue, or finished. Code that runs inside the lock without waiting for another
  task is one atomic step, since no other task can enter the lock meanwhile.
\<close>

datatype task =
    Get_pending
  | Get_waiting
  | Get_finished "error + conn"
  | Return_pending conn
  | Return_putting conn
  | Return_finished

record system =
  pool_state :: pool
  lock_owner :: "nat option"
  tasks :: "nat \<Rightarrow> task option"

text \<open>
  \<open>resume probe connect t sys\<close>: the event loop resumes task \<open>t\<close>; the result is
  \<open>None\<close> when the task cannot move (it waits for the lock that another task holds, it
  waits in \<open>put\<close> on a full queue, it has finished or does not exist). For a task in
  \<open>Get_waiting\<close> the step is the end of the wait: an item of the queue if there is one,
  the timeout otherwise.
\<close>

definition resume ::
  "(conn \<Rightarrow> bool) \<Rightarrow> error + conn \<Rightarrow> nat \<Rightarrow> system \<Rightarrow> system option" where
  "resume probe connect t sys =
     (case tasks sys t of
        None \<Rightarrow> None
      | Some Get_pending \<Rightarrow>
          (if lock_owner sys \<noteq> None then None
           else if 0 < timeout (pool_state sys) \<and> connection_queue (pool_state sys) = []
           then Some (sys\<lparr> lock_owner := Some t, tasks := (tasks sys)(t \<mapsto> Get_waiting) \<rparr>)
           else (case get_connection probe connect (pool_state sys) of
                   (s', r) \<Rightarrow>
                     Some (sys\<lparr> pool_state := s', tasks := (tasks sys)(t \<mapsto> Get_finished r) \<rparr>)))
      | Some Get_waiting \<Rightarrow>
          (case get_connection probe connect (pool_state sys) of
             (s', r) \<Rightarrow>
               Some (sys\<lparr> pool_state := s', lock_owner := None,
                          tasks := (tasks sys)(t \<mapsto> Get_finished r) \<rparr>))
      | Some (Get_finished r) \<Rightarrow> None
      | Some (Return_pending c) \<Rightarrow>
          (if lock_owner sys \<noteq> None then None
           else (case return_connection c (pool_state sys) of
                   Some s' \<Rightarrow>
                     Some (sys\<lparr> pool_state := s', tasks := (tasks sys)(t \<mapsto> Return_finished) \<rparr>)
                 | None \<Rightarrow>
                     Some (sys\<lparr> lock_owner := Some t,
                                tasks := (tasks sys)(t \<mapsto> Return_putting c) \<rparr>)))
      | Some (Return_putting c) \<Rightarrow>
          (case return_connection c (pool_state sys) of
             Some s' \<Rightarrow>
               Some (sys\<lparr> pool_state := s', lock_owner := None,
                          tasks := (tasks sys)(t \<mapsto> Return_finished) \<rparr>)
           | None \<Rightarrow> None)
      | Some Return_finished \<Rightarrow> None)"

section \<open>Retry loops (modules/base.py, modules/repository.py)\<close>

text \<open>
  What a retry loop does, in order: the calls of the wrapped operation (numbered from 0)
  and the delays given to \<open>asyncio.sleep\<close> between them. The type \<open>'f\<close> is the type of
  the delays.
\<close>

datatype 'f action = Call nat | Sleep 'f

text \<open>
  The wrapped operation is \<open>getattr(self.client, method)(url, **kwargs)\<close> followed by
  \<open>response.raise_for_status()\<close>. It is effectful, so its outcome depends on the call:
  \<open>send k\<close> is the outcome of call number \<open>k\<close>, a response or the exception raised.
  A loop returns the response, falls off its end and returns Python's \<open>None\<close>
  (\<open>Returns None\<close>), raises, or never returns because a sleep never ends.
\<close>

datatype 'r ending = Returns "'r option" | Raises error | Hangs

text \<open>\<open>str(n)\<close> of a natural number, for the f-strings.\<close>

definition digit :: "nat \<Rightarrow> char" where
  "digit n = ''0123456789'' ! n"

fun str_nat :: "nat \<Rightarrow> string" where
  "str_nat n =
     (if n < 10 then [digit n]
      else str_nat (n div 10) @ [digit (n mod 10)])"

text \<open>
  \<open>AsyncHTTPClient.__init__\<close> sets \<open>self.retry_delay = 1.0\<close>; nothing else assigns it.
\<close>

definition client_retry_delay :: real where
  "client_retry_delay = 1"

text \<open>
  \<open>self.retry_delay * (2 ** attempt)\<close>. The power is an \<open>int\<close>; the product converts
  it to a float, which raises \<open>OverflowError\<close> from \<open>2 ** 1024\<close> on. Below that the
  power of two is a float and the product with 1.0 is that float, so the real number is
  the value. It is positive and finite, and \<open>asyncio.sleep\<close> of it returns.
\<close>

definition backoff_delay :: "nat \<Rightarrow> error + real" where
  "backoff_delay attempt =
     (if attempt < 1024 then Inr (client_retry_delay * 2 ^ attempt)
      else Inl (OverflowError ''int too large to convert to float''))"

text \<open>
  \<open>AsyncHTTPClient._request_with_retry\<close>: \<open>for attempt in range(self.max_retries)\<close>.
  modules/base.py does not import \<open>APIError\<close>, so \<open>raise APIError(...)\<close> on the last
  attempt raises \<open>NameError\<close>. An exception that is not an \<open>httpx.HTTPError\<close> is not
  caught, nor is one raised inside the handler.
\<close>

fun request_with_retry_loop ::
  "int \<Rightarrow> (nat \<Rightarrow> error + 'r) \<Rightarrow> nat list \<Rightarrow> real action list \<times> 'r ending" where
  "request_with_retry_loop max_retries send [] = ([], Returns None)"
| "request_with_retry_loop max_retries send (attempt # rest) =
     (case send attempt of
        Inr response \<Rightarrow> ([Call attempt], Returns (Some response))
      | Inl e \<Rightarrow>
          if is_HTTPError e then
            (if int attempt = max_retries - 1
             then ([Call attempt],
                   Raises (NameError (''name '' @ quoted ''APIError'' @ '' is not defined'')))
             else (case backoff_delay attempt of
                     Inl overflow \<Rightarrow> ([Call attempt], Raises overflow)
                   | Inr d \<Rightarrow>
                       (case request_with_retry_loop max_retries send rest of
                          (acts, r) \<Rightarrow> (Call attempt # Sleep d # acts, r))))
          else ([Call attempt], Raises e))"

definition request_with_retry ::
  "int \<Rightarrow> (nat \<Rightarrow> error + 'r) \<Rightarrow> real action list \<times> 'r ending" where
  "request_with_retry max_retries send =
     request_with_retry_loop max_retries send [0..<nat max_retries]"

text \<open>
  \<open>RetryConfig\<close> of config/settings.py: an \<open>int\<close> and three Python floats, which the
  environment can set to any float. The floats are values of a type \<open>'f\<close>, and the
  three float operations that \<open>_make_request_with_retry\<close> applies to them are taken as
  given:
  \<^item> \<open>x ** n\<close> for an \<open>int\<close> \<open>n \<ge> 1\<close>, which is a float or raises \<open>OverflowError\<close>;
  \<^item> \<open>x * y\<close>, which is a float (possibly infinite or not a number) and never raises;
  \<^item> \<open>await asyncio.sleep(x)\<close>, which returns, raises (for a delay that is not a
    number, in some versions) or, for an infinite delay, never returns.
\<close>

record 'f retry_config =
  max_retries :: int
  retry_delay :: 'f
  retry_backoff :: 'f
  retry_max_delay :: 'f

datatype pause = Wakes | Fails error | Never

record 'f arith =
  float_pow :: "'f \<Rightarrow> nat \<Rightarrow> error + 'f"
  float_mul :: "'f \<Rightarrow> 'f \<Rightarrow> 'f"
  asyncio_sleep :: "'f \<Rightarrow> pause"

text \<open>The defaults of \<open>RetryConfig\<close>.\<close>

definition default_retry :: "real retry_config" where
  "default_retry =
     \<lparr> max_retries = 3, retry_delay = 1 / 2, retry_backoff = 2, retry_max_delay = 10 \<rparr>"

text \<open>
  The float operations where they are exact: on floats whose power and product are
  floats again and finite, as for the defaults 0.5 and 2.0 with the exponents 1 and 2,
  the results are those of the real numbers and the sleep returns.
\<close>

definition exact_arith :: "real arith" where
  "exact_arith =
     \<lparr> float_pow = (\<lambda>x n. Inr (x ^ n)), float_mul = (\<lambda>x y. x * y),
       asyncio_sleep = (\<lambda>d. Wakes) \<rparr>"

text \<open>
  \<open>RepositoryManager._make_request_with_retry\<close>:
  \<open>while retry_count < settings.retry.max_retries\<close>. The counter is incremented
  before the delay \<open>retry_delay * (retry_backoff ** retry_count)\<close> is computed. Call
  number \<open>k\<close> is made with \<open>retry_count = k\<close>.
\<close>

function make_request_loop ::
  "'f arith \<Rightarrow> 'f retry_config \<Rightarrow> (nat \<Rightarrow> error + 'r) \<Rightarrow> nat \<Rightarrow> 'f action list \<times> 'r ending" where
  "make_request_loop ar cfg send retry_count =
     (if int retry_count < max_retries cfg then
        (case send retry_count of
           Inr response \<Rightarrow> ([Call retry_count], Returns (Some response))
         | Inl e \<Rightarrow>
             if is_HTTPError e then
               (if int (retry_count + 1) = max_retries cfg
                then ([Call retry_count],
                      Raises (APIError (''HTTP error after '' @ str_nat (retry_count + 1) @
                                        '' retries: '' @ str_of e)))
                else (case float_pow ar (retry_backoff cfg) (retry_count + 1) of
                        Inl overflow \<Rightarrow> ([Call retry_count], Raises overflow)
                      | Inr p \<Rightarrow>
                          (case asyncio_sleep ar (float_mul ar (retry_delay cfg) p) of
                             Wakes \<Rightarrow>
                               (case make_request_loop ar cfg send (retry_count + 1) of
                                  (acts, r) \<Rightarrow>
                                    (Call retry_count #
                                     Sleep (float_mul ar (retry_delay cfg) p) # acts, r))
                           | Fails err \<Rightarrow>
                               ([Call retry_count, Sleep (float_mul ar (retry_delay cfg) p)],
                                Raises err)
                           | Never \<Rightarrow>
                               ([Call retry_count, Sleep (float_mul ar (retry_delay cfg) p)],
                                Hangs))))
             else ([Call retry_count], Raises e))
      else ([], Returns None))"
  by pat_completeness auto
termination
  by (relation "measure (\<lambda>(ar, cfg, send, retry_count). nat (max_retries cfg - int retry_count))")
     auto

definition make_request_with_retry ::
  "'f arith \<Rightarrow> 'f retry_config \<Rightarrow> (nat \<Rightarrow> error + 'r) \<Rightarrow> 'f action list \<times> 'r ending" where
  "make_request_with_retry ar cfg send = make_request_loop ar cfg send 0"

text \<open>The calls and the delays of a list of actions.\<close>

fun calls :: "'f action list \<Rightarrow> nat list" where
  "calls [] = []"
| "calls (Call k # acts) = k # calls acts"
| "calls (Sleep d # acts) = calls acts"

fun delays :: "'f action list \<Rightarrow> 'f list" where
  "delays [] = []"
| "delays (Call k # acts) = delays acts"
| "delays (Sleep d # acts) = d # delays acts"

text \<open>
  The delay the specification gives for the wait between attempt \<open>i\<close> and attempt
  \<open>i + 1\<close>: geometric backoff with a ceiling.
\<close>

definition spec_delay :: "real \<Rightarrow> real \<Rightarrow> real \<Rightarrow> nat \<Rightarrow> real" where
  "spec_delay base_delay backoff_multiplier max_delay i =
     min (base_delay * backoff_multiplier ^ i) max_delay"

section \<open>RequestBatcher (modules/base.py)\<close>

text \<open>
  An \<open>asyncio.Future\<close> is pending until it is given a result or an exception, or is
  cancelled; \<open>done()\<close> holds in the last three states. Futures and tasks are identified
  by numbers, in the order of their creation.
\<close>

datatype 'res fstate = Pending | Result 'res | Exception error | Cancelled

fun future_done :: "'res fstate \<Rightarrow> bool" where
  "future_done Pending = False"
| "future_done st = True"

text \<open>
  The object state of a \<open>RequestBatcher\<close>, together with the futures it has created and
  the \<open>_process_batch\<close> tasks it has started that are still in their first statement,
  \<open>await asyncio.sleep(self.batch_window)\<close>; each sleeping task is listed with the time
  at which its sleep ends. \<open>batch_task\<close> is \<open>self._batch_task\<close>: no task, or the number
  of a task (which may have finished).
\<close>

record ('req, 'res) batcher =
  batch_size :: int
  batch_window :: real
  pending_requests :: "('req \<times> nat) list"
  batch_task :: "nat option"
  sleeping :: "(nat \<times> real) list"
  next_task :: nat
  next_future :: nat
  futures :: "nat \<Rightarrow> 'res fstate"

definition init_batcher :: "int \<Rightarrow> real \<Rightarrow> ('req, 'res) batcher" where
  "init_batcher bsize window =
     \<lparr> batch_size = bsize, batch_window = window, pending_requests = [],
       batch_task = None, sleeping = [], next_task = 0, next_future = 0,
       futures = (\<lambda>f. Pending) \<rparr>"

text \<open>
  \<open>task.cancel()\<close> on \<open>self._batch_task\<close>: a task that is still asleep ends there with
  \<open>CancelledError\<close>; on a finished task it does nothing.
\<close>

definition cancel_task :: "nat \<Rightarrow> ('req, 'res) batcher \<Rightarrow> ('req, 'res) batcher" where
  "cancel_task t b = b\<lparr> sleeping := filter (\<lambda>(t', wake). t' \<noteq> t) (sleeping b) \<rparr>"

text \<open>
  \<open>self._batch_task = asyncio.create_task(self._process_batch())\<close> at time \<open>now\<close>: the
  new task starts with the sleep of \<open>batch_window\<close>.
\<close>

definition create_task :: "real \<Rightarrow> ('req, 'res) batcher \<Rightarrow> ('req, 'res) batcher" where
  "create_task now b =
     b\<lparr> sleeping := sleeping b @ [(next_task b, now + batch_window b)],
        batch_task := Some (next_task b),
        next_task := Suc (next_task b) \<rparr>"

text \<open>
  \<open>add_request\<close> up to its last line: the new future and the state in which the caller
  then waits for it. The block inside the lock has no \<open>await\<close>.
\<close>

definition add_request ::
  "real \<Rightarrow> 'req \<Rightarrow> ('req, 'res) batcher \<Rightarrow> nat \<times> ('req, 'res) batcher" where
  "add_request now request b =
     (let future = next_future b;
          b1 = b\<lparr> next_future := Suc future, futures := (futures b)(future := Pending),
                  pending_requests := pending_requests b @ [(request, future)] \<rparr>
      in (future,
          if int (length (pending_requests b1)) \<ge> batch_size b1 then
            create_task now (case batch_task b1 of None \<Rightarrow> b1 | Some t \<Rightarrow> cancel_task t b1)
          else if batch_task b1 = None then create_task now b1
          else b1))"

text \<open>Python's slices \<open>xs[:n]\<close> and \<open>xs[n:]\<close>; a negative \<open>n\<close> counts from the end.\<close>

definition slice_to :: "int \<Rightarrow> 'a list \<Rightarrow> 'a list" where
  "slice_to n xs = (if 0 \<le> n then take (nat n) xs else take (nat (int (length xs) + n)) xs)"

definition slice_from :: "int \<Rightarrow> 'a list \<Rightarrow> 'a list" where
  "slice_from n xs = (if 0 \<le> n then drop (nat n) xs else drop (nat (int (length xs) + n)) xs)"

text \<open>
  The two loops at the end of \<open>_process_batch\<close>:
  \<open>for (_, future), result in zip(batch, results)\<close> and \<open>for _, future in batch\<close>, each
  guarded by \<open>if not future.done()\<close>.
\<close>

fun set_results ::
  "('req \<times> nat) list \<Rightarrow> 'res list \<Rightarrow> (nat \<Rightarrow> 'res fstate) \<Rightarrow> (nat \<Rightarrow> 'res fstate)" where
  "set_results ((request, future) # batch) (result # results) fs =
     set_results batch results (if \<not> future_done (fs future) then fs(future := Result result) else fs)"
| "set_results batch results fs = fs"

fun set_exceptions ::
  "('req \<times> nat) list \<Rightarrow> error \<Rightarrow> (nat \<Rightarrow> 'res fstate) \<Rightarrow> (nat \<Rightarrow> 'res fstate)" where
  "set_exceptions [] e fs = fs"
| "set_exceptions ((request, future) # batch) e fs =
     set_exceptions batch e (if \<not> future_done (fs future) then fs(future := Exception e) else fs)"

text \<open>
  The batch that a flush takes: \<open>self.pending_requests[:self.batch_size]\<close>.
\<close>

definition next_batch :: "('req, 'res) batcher \<Rightarrow> ('req \<times> nat) list" where
  "next_batch b = slice_to (batch_size b) (pending_requests b)"

text \<open>
  \<open>_process_batch\<close> from the end of its sleep on, for the task \<open>t\<close>. The class does not
  define \<open>_execute_batch\<close>; it is the parameter \<open>execute_batch\<close>, the one physical call
  for the requests of the batch, which returns the list of results or raises. Inside the
  lock: nothing happens if no request is pending, otherwise the batch is cut off the
  pending list and \<open>_batch_task\<close> is reset. After the lock the call is made and the
  futures of the batch are completed.
\<close>

definition process_batch ::
  "('req list \<Rightarrow> error + 'res list) \<Rightarrow> nat \<Rightarrow> ('req, 'res) batcher \<Rightarrow> ('req, 'res) batcher" where
  "process_batch execute_batch t b =
     (let b1 = b\<lparr> sleeping := filter (\<lambda>(t', wake). t' \<noteq> t) (sleeping b) \<rparr> in
      if pending_requests b1 = [] then b1
      else
        (let batch = next_batch b1;
             b2 = b1\<lparr> pending_requests := slice_from (batch_size b1) (pending_requests b1),
                      batch_task := None \<rparr>
         in (case execute_batch (map fst batch) of
               Inr results \<Rightarrow> b2\<lparr> futures := set_results batch results (futures b2) \<rparr>
             | Inl e \<Rightarrow> b2\<lparr> futures := set_exceptions batch e (futures b2) \<rparr>)))"

text \<open>The tasks whose sleep has ended at time \<open>now\<close>: the flushes that can run.\<close>

definition due :: "real \<Rightarrow> ('req, 'res) batcher \<Rightarrow> nat list" where
  "due now b = map fst (filter (\<lambda>(t, wake). wake \<le> now) (sleeping b))"

text \<open>
  The pending entries are waiting: their futures are distinct, created by this batcher
  and still pending.
\<close>

definition waiting :: "('req, 'res) batcher \<Rightarrow> bool" where
  "waiting b =
     (distinct (map snd (pending_requests b)) \<and>
      list_all (\<lambda>(request, future). future < next_future b \<and> futures b future = Pending)
        (pending_requests b))"

section \<open>RepositoryManager (modules/repository.py)\<close>

text \<open>
  The class body of \<open>RepositoryManager\<close> as Python executes it: a sequence of \<open>def\<close>
  statements, each binding a name in the class namespace to the function defined at that
  line; a later binding of a name replaces an earlier one. The base class
  \<open>AsyncHTTPClient\<close> (modules/base.py) follows in the method resolution order.
\<close>

definition RepositoryManager_body :: "(string \<times> nat) list" where
  "RepositoryManager_body =
     [(''__init__'', 20), (''__aenter__'', 26), (''__aexit__'', 29),
      (''validate_repository_url'', 37), (''_make_request_with_retry'', 49),
      (''add_repository'', 63), (''batch_add_repositories'', 173),
      (''get_repositories_status'', 195), (''delete_repository'', 200),
      (''sync_repository'', 245), (''process_repository'', 286), (''prune_data'', 327),
      (''prune_system'', 360), (''toggle_repository_state'', 412),
      (''batch_add_repositories'', 469)]"

definition AsyncHTTPClient_body :: "(string \<times> nat) list" where
  "AsyncHTTPClient_body =
     [(''__init__'', 8), (''_request_with_retry'', 17), (''__aenter__'', 28),
      (''__aexit__'', 31)]"

text \<open>The namespace that a class body leaves: the last binding of each name.\<close>

definition namespace :: "(string \<times> nat) list \<Rightarrow> string \<Rightarrow> nat option" where
  "namespace body = map_of (rev body)"

text \<open>An attribute value, by the name of its type.\<close>

datatype pyobj = Obj string

text \<open>
  The instance dictionary after \<open>RepositoryManager.__init__\<close>:
  \<open>AsyncHTTPClient.__init__\<close> sets \<open>max_retries\<close>, \<open>retry_delay\<close> and \<open>client\<close>, then
  \<open>_cleanup_tasks\<close>, \<open>metrics\<close> and \<open>cache\<close> are set.
\<close>

definition AsyncHTTPClient_init :: "(string \<times> pyobj) list" where
  "AsyncHTTPClient_init =
     [(''max_retries'', Obj ''int''), (''retry_delay'', Obj ''float''),
      (''client'', Obj ''AsyncClient'')]"

definition RepositoryManager_init :: "(string \<times> pyobj) list" where
  "RepositoryManager_init =
     AsyncHTTPClient_init @
     [(''_cleanup_tasks'', Obj ''list''), (''metrics'', Obj ''Metrics''),
      (''cache'', Obj ''RepositoryCache'')]"

text \<open>
  \<open>self.name\<close> on a \<open>RepositoryManager\<close>: the instance dictionary, then the classes
  (a function found there is a bound method); otherwise \<open>AttributeError\<close>. Neither class
  defines \<open>__getattr__\<close>.
\<close>

definition getattr_self :: "(string \<times> pyobj) list \<Rightarrow> string \<Rightarrow> error + pyobj" where
  "getattr_self self name =
     (case map_of self name of
        Some v \<Rightarrow> Inr v
      | None \<Rightarrow>
          (case namespace RepositoryManager_body name of
             Some line \<Rightarrow> Inr (Obj ''method'')
           | None \<Rightarrow>
               (case namespace AsyncHTTPClient_body name of
                  Some line \<Rightarrow> Inr (Obj ''method'')
                | None \<Rightarrow>
                    Inl (AttributeError (quoted ''RepositoryManager'' @
                           '' object has no attribute '' @ quoted name)))))"

text \<open>The request dictionary built for one repository.\<close>

record add_request_args =
  url :: string
  branch :: "string option"
  auth_token :: "string option"

text \<open>
  The loop of \<open>batch_add_repositories\<close> as defined at line 469. For each repository the
  expression \<open>self.request_batcher.add_request({...})\<close> is evaluated left to right:
  the attribute \<open>request_batcher\<close> of \<open>self\<close>, its attribute \<open>add_request\<close> (which only
  a \<open>RequestBatcher\<close> has), then the dictionary, where \<open>repo['url']\<close> raises \<open>KeyError\<close>
  for a missing key and \<open>repo.get\<close> gives \<open>None\<close>. The result pairs the requests
  submitted so far with the exception, or with nothing when the loop ends and the
  submitted requests are handed to \<open>asyncio.gather\<close>.
\<close>

fun batch_add_loop ::
  "(string \<times> pyobj) list \<Rightarrow> (string \<rightharpoonup> string) list \<Rightarrow> add_request_args list \<Rightarrow>
   add_request_args list \<times> error option" where
  "batch_add_loop self [] submitted = (submitted, None)"
| "batch_add_loop self (repo # repositories) submitted =
     (case getattr_self self ''request_batcher'' of
        Inl e \<Rightarrow> (submitted, Some e)
      | Inr batcher \<Rightarrow>
          if batcher \<noteq> Obj ''RequestBatcher'' then
            (submitted,
             Some (AttributeError ((case batcher of Obj ty \<Rightarrow> quoted ty) @
                     '' object has no attribute '' @ quoted ''add_request'')))
          else
            (case repo ''url'' of
               None \<Rightarrow> (submitted, Some (KeyError (quoted ''url'')))
             | Some u \<Rightarrow>
                 batch_add_loop self repositories
                   (submitted @
                    [\<lparr> url = u, branch = repo ''branch'', auth_token = repo ''auth_token'' \<rparr>])))"

definition batch_add_repositories ::
  "(string \<times> pyobj) list \<Rightarrow> (string \<rightharpoonup> string) list \<Rightarrow> add_request_args list \<times> error option" where
  "batch_add_repositories self repositories = batch_add_loop self repositories []"

section \<open>Concrete runs\<close>



text \<open>
  A pool of capacity 1 whose only connection, 0, is checked out; and the kind of the
  error of a call of \<open>get_connection\<close>, if it failed.
\<close>

definition full_pool :: pool where
  "full_pool = fst (get_connection (\<lambda>c. True) (Inr 0) (init_pool 1 30))"


text \<open>
  A pool of capacity 2 in which connection 0 is created and then released twice; and
  the queue and the three numbers of a state.
\<close>

definition double_release :: "event list" where
  "double_release = [Acquire (\<lambda>c. True) (Inr 0), Release 0, Release 0]"

definition summary :: "pstate \<Rightarrow> conn list \<times> nat \<times> nat \<times> nat" where
  "summary st = (connection_queue (fst st), checked_out st, idle st, active_set_size st)"

text \<open>A pool of capacity 2 with connection 0 idle and connection 1 checked out.\<close>

definition one_idle_pool :: pool where
  "one_idle_pool =
     fst (last (trace [Acquire (\<lambda>c. True) (Inr 0), Acquire (\<lambda>c. True) (Inr 1), Release 0]
                  (init_pool 2 30, {})))"


text \<open>
  Two tasks on \<open>full_pool\<close>: task 1 holds connection 0 and is about to return it, task 2
  is about to call \<open>get_connection\<close>.
\<close>

definition two_tasks :: system where
  "two_tasks =
     \<lparr> pool_state = full_pool, lock_owner = None,
       tasks = [1 \<mapsto> Return_pending 0, 2 \<mapsto> Get_pending] \<rparr>"

text \<open>What is seen of a system: the queue, the lock and the two tasks.\<close>

definition observe :: "system option \<Rightarrow> (conn list \<times> nat option \<times> task option \<times> task option) option" where
  "observe = map_option (\<lambda>sys. (connection_queue (pool_state sys), lock_owner sys, tasks sys 1, tasks sys 2))"

text \<open>
  For the retry loops: an attempt fails with an \<open>httpx.HTTPError\<close>; the actions of
  \<open>m\<close> attempts, numbered from \<open>a\<close>, each followed by a sleep; and, for
  \<open>_make_request_with_retry\<close>, that after a failed call number \<open>j\<close> the delay \<open>d\<close> is
  computed without overflow and the sleep of \<open>d\<close> returns.
\<close>

definition http_failure :: "error + 'r \<Rightarrow> bool" where
  "http_failure out = (case out of Inl e \<Rightarrow> is_HTTPError e | Inr r \<Rightarrow> False)"

definition retried :: "(nat \<Rightarrow> 'f) \<Rightarrow> nat \<Rightarrow> nat \<Rightarrow> 'f action list" where
  "retried delay a m = concat (map (\<lambda>j. [Call j, Sleep (delay j)]) [a..<a + m])"

definition pauses :: "'f arith \<Rightarrow> 'f retry_config \<Rightarrow> nat \<Rightarrow> 'f \<Rightarrow> bool" where
  "pauses ar cfg j d =
     (case float_pow ar (retry_backoff cfg) (j + 1) of
        Inl overflow \<Rightarrow> False
      | Inr p \<Rightarrow> d = float_mul ar (retry_delay cfg) p \<and> asyncio_sleep ar d = Wakes)"

text \<open>
  An operation that times out on every call, one that is answered with status 422 on
  every call, and one whose second call raises an exception that is not an
  \<open>httpx.HTTPError\<close>. Settings with a \<open>retry_delay\<close> of 0.0 and a \<open>retry_backoff\<close> of
  \<open>1e200\<close>, and float operations for them: the square of the backoff factor overflows.
\<close>

definition always_timeout :: "nat \<Rightarrow> error + string" where
  "always_timeout k = Inl (RequestError ''timed out'')"

definition always_422 :: "nat \<Rightarrow> error + string" where
  "always_422 k = Inl (HTTPStatusError 422 ''Unprocessable Entity'')"

definition invalid_second :: "nat \<Rightarrow> error + string" where
  "invalid_second k =
     (if k = 0 then Inl (RequestError ''timed out'')
      else Inl (ValidationError ''Invalid repository URL format''))"

definition huge_backoff :: "real retry_config" where
  "huge_backoff =
     \<lparr> max_retries = 3, retry_delay = 0, retry_backoff = 10 ^ 200, retry_max_delay = 10 \<rparr>"

definition overflowing_arith :: "real arith" where
  "overflowing_arith =
     \<lparr> float_pow = (\<lambda>x n. if n < 2 then Inr (x ^ n)
                            else Inl (OverflowError (''(34, '' @ quoted ''Numerical result out of range'' @ '')''))),
       float_mul = (\<lambda>x y. x * y), asyncio_sleep = (\<lambda>d. Wakes) \<rparr>"

text \<open>
  A batcher with \<open>batch_size = 2\<close> and \<open>batch_window = 0.1\<close> after two requests: both
  submitted at time 0, or the second one at time 0.09. And two physical calls: one that
  answers every request, one that fails.
\<close>

definition two_submits :: "(string, string) batcher" where
  "two_submits = snd (add_request 0 ''b'' (snd (add_request 0 ''a'' (init_batcher 2 (1 / 10)))))"

definition late_submit :: "(string, string) batcher" where
  "late_submit =
     snd (add_request (9 / 100) ''b'' (snd (add_request 0 ''a'' (init_batcher 2 (1 / 10)))))"

definition answer_all :: "string list \<Rightarrow> error + string list" where
  "answer_all requests = Inr (map (\<lambda>r. ''done '' @ r) requests)"

definition fail_all :: "string list \<Rightarrow> error + string list" where
  "fail_all requests = Inl (APIError ''backend down'')"

text \<open>A list with one repository, given by its URL only.\<close>

definition one_repository :: "(string \<rightharpoonup> string) list" where
  "one_repository = [[''url'' \<mapsto> ''https://example.org/project.git'']]"

section \<open>Properties of the pool\<close>

subsection \<open>The invariant\<close>

lemma partitioned_numbers: "partitioned st \<Longrightarrow> pool_invariant st"
  unfolding partitioned_def pool_invariant_def checked_out_def idle_def active_set_size_def Let_def
  apply (cases st)
  apply clarsimp
  by (metis List.finite_set card_Un_disjoint distinct_card finite_Un add.commute)

lemma partitioned_counters [simp]:
  "partitioned (increment k s, out) = partitioned (s, out)"
  "partitioned (bump k s, out) = partitioned (s, out)"
  by (simp_all add: partitioned_def increment_def bump_def)








lemmas pool_defs = init_pool_def get_connection_def wait_for_idle_def create_if_under_limit_def
  under_limit_def create_connection_def get_failed_def increment_def bump_def
  close_connection_def validate_connection_sync_def return_connection_def queue_full_def





subsection \<open>Failures of get_connection\<close>

lemma full_pool_eq:
  "full_pool =
     \<lparr> max_connections = 1, timeout = 30, connection_queue = [], active_connections = {0},
       closed_conns = {}, counters = (\<lambda>_. 0)(''connection_success'' := 1),
       pool_metrics = (\<lambda>_. 0)(''timeouts'' := 1, ''total_connections'' := 1) \<rparr>"
  by (simp add: full_pool_def pool_defs)

lemma one_idle_pool_eq:
  "one_idle_pool =
     \<lparr> max_connections = 2, timeout = 30, connection_queue = [0], active_connections = {0, 1},
       closed_conns = {},
       counters = (\<lambda>_. 0)(''connection_success'' := 2, ''connection_return_success'' := 1),
       pool_metrics = (\<lambda>_. 0)(''timeouts'' := 2, ''total_connections'' := 2) \<rparr>"
  by (simp add: one_idle_pool_def pool_defs insert_commute)





lemma wait_for_idle_max:
  "max_connections (fst (wait_for_idle probe s)) = max_connections s"
  by (simp add: wait_for_idle_def bump_def increment_def close_connection_def
      Let_def split: list.splits)



subsection \<open>Releasing twice\<close>

text \<open>
  Claim C6, as stated, fails. In a pool of capacity 2, connection 0 is created, released
  and released again: the queue then holds the handle twice, and two idle entries stand
  against an active set of size one.
\<close>

theorem double_release_duplicates:
  "map summary (trace double_release (init_pool 2 30, {})) =
     [([], 0, 0, 0), ([], 1, 0, 1), ([0], 0, 1, 1), ([0, 0], 0, 2, 1)] \<and>
   \<not> pool_invariant (last (trace double_release (init_pool 2 30, {})))"
  by (simp add: double_release_def summary_def checked_out_def idle_def active_set_size_def
      pool_invariant_def pool_defs)

lemma one_idle_partitioned: "partitioned (one_idle_pool, {1})"
  by (auto simp: partitioned_def one_idle_pool_eq)

text \<open>
  Claim C6, amended. \<open>return_connection\<close> is a no-op exactly for a connection that is
  not in the active set: it leaves the pool as it is if and only if the connection is
  not active. It does not look whether a connection of the active set is already idle:
  in a pool whose idle and checked-out connections partition the active set, releasing a
  connection that is idle, while the queue has room, appends the handle a second time.
  The queue then holds a duplicate, the active set is unchanged, and the checked-out and
  idle connections count one more than the active set.
\<close>

theorem second_release_duplicates:
  "(c \<notin> active_connections s) = (return_connection c s = Some s) \<and>
   (partitioned (s, out) \<and> c \<in> set (connection_queue s) \<and> \<not> queue_full s \<longrightarrow>
      (\<exists>s'. return_connection c s = Some s' \<and>
            connection_queue s' = connection_queue s @ [c] \<and>
            \<not> distinct (connection_queue s') \<and>
            active_connections s' = active_connections s \<and>
            checked_out (s', out) + idle (s', out) = Suc (active_set_size (s', out))))"
proof (intro conjI impI)
  show "(c \<notin> active_connections s) = (return_connection c s = Some s)"
  proof
    assume "c \<notin> active_connections s"
    then show "return_connection c s = Some s"
      by (simp add: return_connection_def)
  next
    assume same: "return_connection c s = Some s"
    show "c \<notin> active_connections s"
    proof
      assume "c \<in> active_connections s"
      with same have "increment ''connection_return_success''
                        (s\<lparr> connection_queue := connection_queue s @ [c] \<rparr>) = s"
        by (simp add: return_connection_def split: if_splits)
      then have "connection_queue (increment ''connection_return_success''
                        (s\<lparr> connection_queue := connection_queue s @ [c] \<rparr>)) = connection_queue s"
        by simp
      then show False by (simp add: increment_def)
    qed
  qed
next
  assume a: "partitioned (s, out) \<and> c \<in> set (connection_queue s) \<and> \<not> queue_full s"
  then have act: "c \<in> active_connections s"
    by (auto simp: partitioned_def Let_def)
  define s' where "s' = increment ''connection_return_success''
                      (s\<lparr> connection_queue := connection_queue s @ [c] \<rparr>)"
  from a act have r: "return_connection c s = Some s'"
    by (simp add: return_connection_def s'_def)
  have q: "connection_queue s' = connection_queue s @ [c]"
    and ac: "active_connections s' = active_connections s"
    by (simp_all add: s'_def increment_def)
  from a have "pool_invariant (s, out)"
    by (intro partitioned_numbers) simp
  then have "checked_out (s', out) + idle (s', out) = Suc (active_set_size (s', out))"
    by (simp add: pool_invariant_def checked_out_def idle_def active_set_size_def q ac)
  moreover from a have "\<not> distinct (connection_queue s')"
    by (simp add: q)
  ultimately show "\<exists>s'. return_connection c s = Some s' \<and>
            connection_queue s' = connection_queue s @ [c] \<and>
            \<not> distinct (connection_queue s') \<and>
            active_connections s' = active_connections s \<and>
            checked_out (s', out) + idle (s', out) = Suc (active_set_size (s', out))"
    using r q ac by blast
qed

theorem second_release_duplicates_witness:
  "partitioned (one_idle_pool, {1}) \<and> 0 \<in> set (connection_queue one_idle_pool) \<and>
   \<not> queue_full one_idle_pool \<and>
   map_option connection_queue (return_connection 0 one_idle_pool) = Some [0, 0] \<and>
   5 \<notin> active_connections one_idle_pool \<and>
   return_connection 5 one_idle_pool = Some one_idle_pool \<and>
   1 \<in> active_connections one_idle_pool \<and>
   return_connection 1 one_idle_pool \<noteq> Some one_idle_pool"
proof -
  have idle0: "0 \<in> set (connection_queue one_idle_pool)" "\<not> queue_full one_idle_pool"
    and q: "connection_queue one_idle_pool = [0]"
    and foreign: "5 \<notin> active_connections one_idle_pool"
    and held: "1 \<in> active_connections one_idle_pool"
    by (simp_all add: one_idle_pool_eq queue_full_def)
  from second_release_duplicates[of 0 one_idle_pool "{1}"] idle0 one_idle_partitioned q
  have "map_option connection_queue (return_connection 0 one_idle_pool) = Some [0, 0]"
    by auto
  moreover from second_release_duplicates[of 5 one_idle_pool "{1}"] foreign
  have "return_connection 5 one_idle_pool = Some one_idle_pool"
    by blast
  moreover from second_release_duplicates[of 1 one_idle_pool "{1}"] held
  have "return_connection 1 one_idle_pool \<noteq> Some one_idle_pool"
    by blast
  ultimately show ?thesis using idle0 one_idle_partitioned foreign held by blast
qed

subsection \<open>close_all\<close>

lemma close_all_idle_raises:
  assumes "connection_queue s = c # rest"
  shows "map_sum class_name id (snd (close_all s)) = Inl ''TypeError'' \<and>
         active_connections (fst (close_all s)) = active_connections s \<and>
         closed_conns (fst (close_all s)) = closed_conns s"
  using assms by (simp add: close_all_def)

lemma close_all_empty_queue:
  "connection_queue s = [] \<Longrightarrow>
   close_all s = (s\<lparr> closed_conns := closed_conns s \<union> active_connections s,
                       active_connections := {} \<rparr>, Inr ())"
  by (simp add: close_all_def)

text \<open>
  Claim C8 on a pool of capacity 2 with connection 0 idle and connection 1 checked out:
  \<open>close_all\<close> raises \<open>TypeError\<close>; the idle connection has left the queue, no
  connection has been closed and the active set still holds both.
\<close>

theorem close_all_raises_on_idle:
  "map_sum class_name id (snd (close_all one_idle_pool)) = Inl ''TypeError'' \<and>
   connection_queue (fst (close_all one_idle_pool)) = [] \<and>
   active_connections (fst (close_all one_idle_pool)) = {0, 1} \<and>
   closed_conns (fst (close_all one_idle_pool)) = {}"
  by (simp add: one_idle_pool_eq close_all_def)

subsection \<open>The lock during the wait\<close>

lemma get_waits_inside_lock:
  assumes "tasks sys t = Some Get_pending" and "lock_owner sys = None"
    and "0 < timeout (pool_state sys)" and "connection_queue (pool_state sys) = []"
  shows "resume probe connect t sys =
           Some (sys\<lparr> lock_owner := Some t, tasks := (tasks sys)(t \<mapsto> Get_waiting) \<rparr>)"
  using assms by (simp add: resume_def)

lemma release_waits_for_lock:
  assumes "tasks sys t = Some (Return_pending c)" and "lock_owner sys = Some t'"
  shows "resume probe connect t sys = None"
  using assms by (simp add: resume_def)

text \<open>
  Claim C9 on \<open>full_pool\<close>, whose connection is held by task 1. Task 2 calls
  \<open>get_connection\<close>: it takes the lock and is suspended in the wait on the empty queue,
  still owning the lock. Task 1, resumed now, cannot move: its \<open>return_connection\<close>
  waits for the lock. Only the end of task 2's wait, which is the timeout and fails at
  capacity, frees the lock, and then the release completes.
\<close>

theorem lock_held_while_waiting:
  "observe (resume (\<lambda>c. True) (Inr 1) 2 two_tasks)
     = Some ([], Some 2, Some (Return_pending 0), Some Get_waiting) \<and>
   observe (Option.bind (resume (\<lambda>c. True) (Inr 1) 2 two_tasks) (resume (\<lambda>c. True) (Inr 1) 1))
     = None \<and>
   observe (Option.bind (resume (\<lambda>c. True) (Inr 1) 2 two_tasks) (resume (\<lambda>c. True) (Inr 1) 2))
     = Some ([], None, Some (Return_pending 0),
             Some (Get_finished (Inl (DatabaseError
                ''Failed to get connection: Maximum connections reached'')))) \<and>
   observe (Option.bind (Option.bind (resume (\<lambda>c. True) (Inr 1) 2 two_tasks)
              (resume (\<lambda>c. True) (Inr 1) 2)) (resume (\<lambda>c. True) (Inr 1) 1))
     = Some ([0], None, Some Return_finished,
             Some (Get_finished (Inl (DatabaseError
                ''Failed to get connection: Maximum connections reached''))))"
  by (simp add: observe_def resume_def two_tasks_def full_pool_eq pool_defs)

section \<open>Properties of the retry loops\<close>

lemma retried_0 [simp]: "retried f a 0 = []"
  by (simp add: retried_def)

lemma retried_Suc: "retried f a (Suc m) = Call a # Sleep (f a) # retried f (Suc a) m"
  by (simp add: retried_def upt_conv_Cons del: upt_Suc)

lemma calls_append [simp]: "calls (xs @ ys) = calls xs @ calls ys"
  by (induction xs rule: calls.induct) auto

lemma delays_append [simp]: "delays (xs @ ys) = delays xs @ delays ys"
  by (induction xs rule: delays.induct) auto

lemma calls_retried [simp]: "calls (retried f a m) = [a..<a + m]"
  by (induction m arbitrary: a) (auto simp: retried_Suc upt_conv_Cons simp del: upt_Suc)

lemma delays_retried [simp]: "delays (retried f a m) = map f [a..<a + m]"
  by (induction m arbitrary: a) (auto simp: retried_Suc upt_conv_Cons simp del: upt_Suc)

lemma backoff_delay_small: "attempt < 1024 \<Longrightarrow> backoff_delay attempt = Inr (2 ^ attempt)"
  by (simp add: backoff_delay_def client_retry_delay_def)

lemma backoff_delay_large:
  "\<not> attempt < 1024 \<Longrightarrow>
   backoff_delay attempt = Inl (OverflowError ''int too large to convert to float'')"
  by (simp add: backoff_delay_def)

lemma request_loop_calls_le:
  "length (calls (fst (request_with_retry_loop N send xs))) \<le> length xs"
  by (induction xs) (auto split: sum.splits prod.splits)

lemma request_loop_retried:
  assumes "\<forall>j. a \<le> j \<and> j < a + m \<longrightarrow> http_failure (send j)" and "a + m \<le> n"
    and "int (a + m) < N" and "a + m \<le> 1024"
  shows "request_with_retry_loop N send [a..<n] =
           (retried (\<lambda>j. 2 ^ j) a m @ fst (request_with_retry_loop N send [a + m..<n]),
            snd (request_with_retry_loop N send [a + m..<n]))"
  using assms
proof (induction m arbitrary: a)
  case 0
  then show ?case by simp
next
  case (Suc m)
  from Suc.prems have fail: "http_failure (send a)" and lt: "a < n" and notlast: "int a \<noteq> N - 1"
    and small: "a < 1024"
    by auto
  from fail obtain e where e: "send a = Inl e" "is_HTTPError e"
    by (auto simp: http_failure_def split: sum.splits)
  have IH: "request_with_retry_loop N send [Suc a..<n] =
           (retried (\<lambda>j. 2 ^ j) (Suc a) m @ fst (request_with_retry_loop N send [Suc a + m..<n]),
            snd (request_with_retry_loop N send [Suc a + m..<n]))"
    using Suc.prems by (intro Suc.IH) auto
  show ?case
    using e lt notlast IH backoff_delay_small[OF small]
    by (simp add: upt_conv_Cons retried_Suc)
qed

declare make_request_loop.simps [simp del]

lemma request_loop_first:
  "a < n \<Longrightarrow> \<exists>acts. fst (request_with_retry_loop N send [a..<n]) = Call a # acts"
  by (auto simp: upt_conv_Cons split: sum.splits prod.splits)

lemma request_loop_other:
  assumes "send a = Inl e" and "\<not> is_HTTPError e" and "a < n"
  shows "request_with_retry_loop N send [a..<n] = ([Call a], Raises e)"
  using assms by (simp add: upt_conv_Cons)

lemma request_loop_last:
  assumes "http_failure (send a)" and "int a = N - 1" and "a < n"
  shows "request_with_retry_loop N send [a..<n] =
           ([Call a], Raises (NameError (''name '' @ quoted ''APIError'' @ '' is not defined'')))"
  using assms by (auto simp: upt_conv_Cons http_failure_def split: sum.splits)

lemma request_loop_overflow:
  assumes "http_failure (send a)" and "int a \<noteq> N - 1" and "a < n" and "\<not> a < 1024"
  shows "request_with_retry_loop N send [a..<n] =
           ([Call a], Raises (OverflowError ''int too large to convert to float''))"
  using assms backoff_delay_large[of a]
  by (auto simp: upt_conv_Cons http_failure_def split: sum.splits)

lemma make_loop_calls_le:
  "length (calls (fst (make_request_loop ar cfg send k))) \<le> nat (max_retries cfg) - k"
proof (induction ar cfg send k rule: make_request_loop.induct)
  case (1 ar cfg send retry_count)
  show ?case
  proof (cases "int retry_count < max_retries cfg")
    case False
    then show ?thesis by (simp add: make_request_loop.simps[of ar cfg send retry_count])
  next
    case True
    then have pos: "Suc 0 \<le> nat (max_retries cfg) - retry_count" by linarith
    show ?thesis
    proof (cases "send retry_count")
      case (Inr r)
      with True pos show ?thesis by (simp add: make_request_loop.simps[of ar cfg send retry_count])
    next
      case (Inl e)
      show ?thesis
      proof (cases "is_HTTPError e \<and> int (retry_count + 1) \<noteq> max_retries cfg")
        case False
        with True pos Inl show ?thesis
          by (auto simp: make_request_loop.simps[of ar cfg send retry_count])
      next
        case rec: True
        show ?thesis
        proof (cases "float_pow ar (retry_backoff cfg) (retry_count + 1)")
          case overflow: (Inl err)
          with True pos Inl rec show ?thesis
            by (simp add: make_request_loop.simps[of ar cfg send retry_count])
        next
          case p: (Inr p)
          show ?thesis
          proof (cases "asyncio_sleep ar (float_mul ar (retry_delay cfg) p)")
            case Wakes
            from rec have h: "is_HTTPError e" "int (retry_count + 1) \<noteq> max_retries cfg"
              by simp_all
            from "1.IH"[OF True Inl h p Wakes]
            have "length (calls (fst (make_request_loop ar cfg send (retry_count + 1))))
               \<le> nat (max_retries cfg) - (retry_count + 1)" .
            with True Inl rec p Wakes show ?thesis
              by (auto simp: make_request_loop.simps[of ar cfg send retry_count] split: prod.splits)
          next
            case (Fails err)
            with True pos Inl rec p show ?thesis
              by (simp add: make_request_loop.simps[of ar cfg send retry_count])
          next
            case Never
            with True pos Inl rec p show ?thesis
              by (simp add: make_request_loop.simps[of ar cfg send retry_count])
          qed
        qed
      qed
    qed
  qed
qed

lemma make_loop_retried:
  assumes "\<forall>j. a \<le> j \<and> j < a + m \<longrightarrow> http_failure (send j) \<and> pauses ar cfg j (ds j)"
    and "int (a + m) < max_retries cfg"
  shows "make_request_loop ar cfg send a =
           (retried ds a m @ fst (make_request_loop ar cfg send (a + m)),
            snd (make_request_loop ar cfg send (a + m)))"
  using assms
proof (induction m arbitrary: a)
  case 0
  then show ?case by simp
next
  case (Suc m)
  from Suc.prems have fail: "http_failure (send a)" and pause: "pauses ar cfg a (ds a)"
    and lt: "int a < max_retries cfg" and notlast: "int (a + 1) \<noteq> max_retries cfg"
    by auto
  from fail obtain e where e: "send a = Inl e" "is_HTTPError e"
    by (auto simp: http_failure_def split: sum.splits)
  from pause obtain p where p: "float_pow ar (retry_backoff cfg) (a + 1) = Inr p"
    "ds a = float_mul ar (retry_delay cfg) p" "asyncio_sleep ar (float_mul ar (retry_delay cfg) p) = Wakes"
    by (auto simp: pauses_def split: sum.splits)
  have IH: "make_request_loop ar cfg send (Suc a) =
           (retried ds (Suc a) m @ fst (make_request_loop ar cfg send (Suc a + m)),
            snd (make_request_loop ar cfg send (Suc a + m)))"
    using Suc.prems by (intro Suc.IH) auto
  show ?case
    using e lt notlast IH p
    by (simp add: make_request_loop.simps[of ar cfg send a] retried_Suc)
qed

lemma make_loop_first:
  "int a < max_retries cfg \<Longrightarrow> \<exists>acts. fst (make_request_loop ar cfg send a) = Call a # acts"
  by (auto simp: make_request_loop.simps[of ar cfg send a] split: sum.splits prod.splits pause.splits)

lemma make_loop_other:
  assumes "send a = Inl e" and "\<not> is_HTTPError e" and "int a < max_retries cfg"
  shows "make_request_loop ar cfg send a = ([Call a], Raises e)"
  using assms by (simp add: make_request_loop.simps[of ar cfg send a])

lemma request_all_fail:
  assumes "\<forall>k. http_failure (send k)" and "N \<le> 1025"
  shows "fst (request_with_retry N send) =
           (if nat N = 0 then [] else retried (\<lambda>j. 2 ^ j) 0 (nat N - 1) @ [Call (nat N - 1)])"
proof (cases "nat N = 0")
  case True
  then show ?thesis by (simp add: request_with_retry_def)
next
  case False
  define m where "m = nat N - 1"
  from False assms(2) have N: "int m = N - 1" "m < nat N" "m \<le> 1024" by (auto simp: m_def)
  have "request_with_retry_loop N send [0..<nat N] =
           (retried (\<lambda>j. 2 ^ j) 0 m @ fst (request_with_retry_loop N send [0 + m..<nat N]),
            snd (request_with_retry_loop N send [0 + m..<nat N]))"
    using assms(1) N by (intro request_loop_retried) auto
  moreover have "fst (request_with_retry_loop N send [m..<nat N]) = [Call m]"
    using assms(1) N by (simp add: request_loop_last)
  ultimately show ?thesis using False by (simp add: request_with_retry_def m_def)
qed

lemma request_all_fail_overflow:
  assumes "\<forall>k. http_failure (send k)" and "1025 < N"
  shows "request_with_retry N send =
           (retried (\<lambda>j. 2 ^ j) 0 1024 @ [Call 1024],
            Raises (OverflowError ''int too large to convert to float''))"
proof -
  from assms(2) have N: "int (0 + 1024) < N" "(0::nat) + 1024 \<le> nat N" "(1024::nat) < nat N"
    "int 1024 \<noteq> N - 1"
    by auto
  have "request_with_retry_loop N send [0..<nat N] =
           (retried (\<lambda>j. 2 ^ j) 0 1024 @ fst (request_with_retry_loop N send [0 + 1024..<nat N]),
            snd (request_with_retry_loop N send [0 + 1024..<nat N]))"
    using assms(1) N(1,2) by (intro request_loop_retried) auto
  moreover have "request_with_retry_loop N send [1024..<nat N] =
           ([Call 1024], Raises (OverflowError ''int too large to convert to float''))"
    using assms(1) N(3,4) by (intro request_loop_overflow) auto
  ultimately show ?thesis by (simp add: request_with_retry_def)
qed

text \<open>
  Claim C3, amended. Both retry loops call the operation at most \<open>max_retries\<close> times
  (never, if that number is not positive). In \<open>AsyncHTTPClient._request_with_retry\<close>,
  whose base delay is 1.0 and whose multiplier is 2: when every call fails with an
  \<open>httpx.HTTPError\<close> and \<open>max_retries\<close> is at most 1025, exactly \<open>max_retries\<close> calls are
  made and \<open>2 ^ i\<close> seconds are slept between call \<open>i\<close> and call \<open>i + 1\<close>, for \<open>i\<close>
  from 0 to \<open>max_retries - 2\<close>, with no ceiling on the delay; when \<open>max_retries\<close> is
  larger, the delay after call 1024 cannot be computed and the loop ends there with
  \<open>OverflowError\<close>, after 1025 calls.
\<close>

theorem retry_attempts_and_delays:
  "length (calls (fst (request_with_retry N send))) \<le> nat N \<and>
   length (calls (fst (make_request_with_retry ar cfg send))) \<le> nat (max_retries cfg) \<and>
   ((\<forall>k. http_failure (send k)) \<and> N \<le> 1025 \<longrightarrow>
      calls (fst (request_with_retry N send)) = [0..<nat N] \<and>
      delays (fst (request_with_retry N send)) = map (\<lambda>i. 2 ^ i) [0..<nat N - 1]) \<and>
   ((\<forall>k. http_failure (send k)) \<and> 1025 < N \<longrightarrow>
      request_with_retry N send =
        (retried (\<lambda>i. 2 ^ i) 0 1024 @ [Call 1024],
         Raises (OverflowError ''int too large to convert to float'')))"
proof -
  have "length (calls (fst (request_with_retry N send))) \<le> nat N"
    using request_loop_calls_le[of N send "[0..<nat N]"] by (simp add: request_with_retry_def)
  moreover have "length (calls (fst (make_request_with_retry ar cfg send))) \<le> nat (max_retries cfg)"
    using make_loop_calls_le[of ar cfg send 0] by (simp add: make_request_with_retry_def)
  moreover have "calls (fst (request_with_retry N send)) = [0..<nat N] \<and>
      delays (fst (request_with_retry N send)) = map (\<lambda>i. 2 ^ i) [0..<nat N - 1]"
    if fail: "\<forall>k. http_failure (send k)" and small: "N \<le> 1025"
  proof -
    have "nat N \<noteq> 0 \<Longrightarrow> [0..<nat N - 1] @ [nat N - 1] = [0..<nat N]"
      by (metis Suc_diff_1 bot_nat_0.not_eq_extremum upt_Suc_append zero_le)
    then show ?thesis
      by (simp add: request_all_fail[OF fail small])
  qed
  moreover have "request_with_retry N send =
        (retried (\<lambda>i. 2 ^ i) 0 1024 @ [Call 1024],
         Raises (OverflowError ''int too large to convert to float''))"
    if "\<forall>k. http_failure (send k)" and "1025 < N"
    using that by (rule request_all_fail_overflow)
  ultimately show ?thesis by blast
qed

lemma always_timeout_fails: "http_failure (always_timeout k)"
  by (simp add: always_timeout_def http_failure_def)

theorem retry_attempts_and_delays_witness:
  "(\<forall>k. http_failure (always_timeout k)) \<and> (3::int) \<le> 1025 \<and>
   calls (fst (request_with_retry 3 always_timeout)) = [0, 1, 2] \<and>
   delays (fst (request_with_retry 3 always_timeout)) = [1, 2] \<and>
   (1025::int) < 2000 \<and>
   length (calls (fst (request_with_retry 2000 always_timeout))) = 1025 \<and>
   snd (request_with_retry 2000 always_timeout) =
     Raises (OverflowError ''int too large to convert to float'')"
proof -
  have three: "[0..<nat 3] = [0, 1, 2]" "[0..<nat 3 - 1] = [0, 1]"
    by (simp_all add: upt_conv_Cons)
  from retry_attempts_and_delays[of 3 always_timeout exact_arith default_retry]
    always_timeout_fails three
  have "calls (fst (request_with_retry 3 always_timeout)) = [0, 1, 2] \<and>
        delays (fst (request_with_retry 3 always_timeout)) = [1, 2]"
    by simp
  moreover
  from retry_attempts_and_delays[of 2000 always_timeout exact_arith default_retry]
    always_timeout_fails
  have "request_with_retry 2000 always_timeout =
        (retried (\<lambda>i. 2 ^ i) 0 1024 @ [Call 1024],
         Raises (OverflowError ''int too large to convert to float''))"
    by simp
  then have "length (calls (fst (request_with_retry 2000 always_timeout))) = 1025 \<and>
     snd (request_with_retry 2000 always_timeout) =
       Raises (OverflowError ''int too large to convert to float'')"
    by simp
  ultimately show ?thesis using always_timeout_fails by simp
qed

text \<open>
  Claim C3, as stated, fails. With six attempts that all time out,
  \<open>_request_with_retry\<close> sleeps 1, 2, 4, 8 and 16 seconds, where the ceiling of 10
  seconds (\<open>retry_max_delay\<close> of the settings) would give 10 for the last delay. With
  the default settings \<open>_make_request_with_retry\<close> sleeps 1 and 2 seconds, where the
  stated formula gives 0.5 and 1.
\<close>

theorem backoff_not_capped:
  "delays (fst (request_with_retry 6 always_timeout)) = [1, 2, 4, 8, 16] \<and>
   map (spec_delay client_retry_delay 2 10) [0..<5] = [1, 2, 4, 8, 10] \<and>
   delays (fst (make_request_with_retry exact_arith default_retry always_timeout)) = [1, 2] \<and>
   map (spec_delay (retry_delay default_retry) (retry_backoff default_retry)
          (retry_max_delay default_retry)) [0..<2] = [1 / 2, 1]"
proof -
  have "[0..<nat 6 - 1] = [0, 1, 2, 3, 4]" "[0..<5] = [0, 1, 2, 3, 4::nat]" "[0..<2] = [0, 1::nat]"
    by (simp_all add: upt_conv_Cons)
  moreover have "delays (fst (make_request_with_retry exact_arith default_retry always_timeout)) = [1, 2]"
    by (simp add: make_request_with_retry_def make_request_loop.simps always_timeout_def
        default_retry_def exact_arith_def)
  ultimately show ?thesis
    using always_timeout_fails
    by (simp add: request_all_fail spec_delay_def default_retry_def client_retry_delay_def)
qed

lemma make_request_overflow:
  "make_request_with_retry overflowing_arith huge_backoff always_timeout =
     ([Call 0, Sleep 0, Call 1],
      Raises (OverflowError (''(34, '' @ quoted ''Numerical result out of range'' @ '')'')))"
  by (simp add: make_request_with_retry_def make_request_loop.simps always_timeout_def
      huge_backoff_def overflowing_arith_def)

text \<open>
  Claim C7, as stated, fails. A response with status 422 makes
  \<open>raise_for_status()\<close> raise \<open>httpx.HTTPStatusError\<close>, an \<open>httpx.HTTPError\<close>: both
  loops retry it with backoff through all three attempts, and the caller gets another
  exception in the end.
\<close>

theorem status_422_is_retried:
  "request_with_retry 3 always_422 =
     ([Call 0, Sleep 1, Call 1, Sleep 2, Call 2],
      Raises (NameError (''name '' @ quoted ''APIError'' @ '' is not defined''))) \<and>
   make_request_with_retry exact_arith default_retry always_422 =
     ([Call 0, Sleep 1, Call 1, Sleep 2, Call 2],
      Raises (APIError ''HTTP error after 3 retries: Unprocessable Entity''))"
  by (simp add: request_with_retry_def make_request_with_retry_def always_422_def
      default_retry_def exact_arith_def backoff_delay_def client_retry_delay_def
      upt_conv_Cons make_request_loop.simps digit_def)

text \<open>
  Claim C7, amended. The loops retry exactly the failures that are instances of
  \<open>httpx.HTTPError\<close> (transport errors and error-status responses alike). Let the calls
  before call \<open>k\<close> fail with such errors, each followed by its sleep (the delay was
  computed without overflow, which in \<open>_request_with_retry\<close> means a call number below
  1024, and the sleep returned), and let call \<open>k\<close> raise \<open>e\<close>. If \<open>e\<close> is not an
  \<open>httpx.HTTPError\<close> (for instance a \<open>ValidationError\<close>) and call \<open>k\<close> is within the
  attempts, the loop ends with call \<open>k\<close>: nothing is slept after it, no further call is
  made and the caller gets \<open>e\<close> itself. If \<open>e\<close> is an \<open>httpx.HTTPError\<close>, call \<open>k\<close> is not
  the last attempt, and the delay after it is computed and slept, call \<open>k + 1\<close> is made.
\<close>

theorem only_HTTPError_is_retried:
  assumes "\<forall>j<k. http_failure (send j)" and "send k = Inl e"
  shows "(\<not> is_HTTPError e \<and> int k < N \<and> k \<le> 1024 \<longrightarrow>
            request_with_retry N send = (retried (\<lambda>j. 2 ^ j) 0 k @ [Call k], Raises e)) \<and>
         (\<not> is_HTTPError e \<and> int k < max_retries cfg \<and> (\<forall>j<k. pauses ar cfg j (ds j)) \<longrightarrow>
            make_request_with_retry ar cfg send = (retried ds 0 k @ [Call k], Raises e)) \<and>
         (is_HTTPError e \<and> int k < N - 1 \<and> k < 1024 \<longrightarrow>
            Suc k \<in> set (calls (fst (request_with_retry N send)))) \<and>
         (is_HTTPError e \<and> int k < max_retries cfg - 1 \<and> (\<forall>j\<le>k. pauses ar cfg j (ds j)) \<longrightarrow>
            Suc k \<in> set (calls (fst (make_request_with_retry ar cfg send))))"
proof (intro conjI impI)
  assume a: "\<not> is_HTTPError e \<and> int k < N \<and> k \<le> 1024"
  have "request_with_retry_loop N send [0..<nat N] =
           (retried (\<lambda>j. 2 ^ j) 0 k @ fst (request_with_retry_loop N send [0 + k..<nat N]),
            snd (request_with_retry_loop N send [0 + k..<nat N]))"
    using assms(1) a by (intro request_loop_retried) auto
  moreover have "request_with_retry_loop N send [k..<nat N] = ([Call k], Raises e)"
    using assms(2) a by (intro request_loop_other) auto
  ultimately show "request_with_retry N send = (retried (\<lambda>j. 2 ^ j) 0 k @ [Call k], Raises e)"
    by (simp add: request_with_retry_def)
next
  assume a: "\<not> is_HTTPError e \<and> int k < max_retries cfg \<and> (\<forall>j<k. pauses ar cfg j (ds j))"
  have "make_request_loop ar cfg send 0 =
           (retried ds 0 k @ fst (make_request_loop ar cfg send (0 + k)),
            snd (make_request_loop ar cfg send (0 + k)))"
    using assms(1) a by (intro make_loop_retried) auto
  moreover have "make_request_loop ar cfg send k = ([Call k], Raises e)"
    using assms(2) a by (intro make_loop_other) auto
  ultimately show "make_request_with_retry ar cfg send = (retried ds 0 k @ [Call k], Raises e)"
    by (simp add: make_request_with_retry_def)
next
  assume a: "is_HTTPError e \<and> int k < N - 1 \<and> k < 1024"
  with assms have fails: "\<forall>j. 0 \<le> j \<and> j < 0 + Suc k \<longrightarrow> http_failure (send j)"
    by (auto simp: http_failure_def less_Suc_eq)
  have "request_with_retry_loop N send [0..<nat N] =
           (retried (\<lambda>j. 2 ^ j) 0 (Suc k) @
              fst (request_with_retry_loop N send [0 + Suc k..<nat N]),
            snd (request_with_retry_loop N send [0 + Suc k..<nat N]))"
    using fails a by (intro request_loop_retried) auto
  moreover from a have "Suc k < nat N" by linarith
  then obtain acts where "fst (request_with_retry_loop N send [Suc k..<nat N]) = Call (Suc k) # acts"
    using request_loop_first[of "Suc k" "nat N" N send] by blast
  ultimately show "Suc k \<in> set (calls (fst (request_with_retry N send)))"
    by (simp add: request_with_retry_def)
next
  assume a: "is_HTTPError e \<and> int k < max_retries cfg - 1 \<and> (\<forall>j\<le>k. pauses ar cfg j (ds j))"
  with assms
  have fails: "\<forall>j. 0 \<le> j \<and> j < 0 + Suc k \<longrightarrow> http_failure (send j) \<and> pauses ar cfg j (ds j)"
    by (auto simp: http_failure_def less_Suc_eq)
  have "make_request_loop ar cfg send 0 =
           (retried ds 0 (Suc k) @ fst (make_request_loop ar cfg send (0 + Suc k)),
            snd (make_request_loop ar cfg send (0 + Suc k)))"
    using fails a by (intro make_loop_retried) auto
  moreover from a have "int (Suc k) < max_retries cfg" by linarith
  then obtain acts where "fst (make_request_loop ar cfg send (Suc k)) = Call (Suc k) # acts"
    using make_loop_first[of "Suc k" cfg ar send] by blast
  ultimately show "Suc k \<in> set (calls (fst (make_request_with_retry ar cfg send)))"
    by (simp add: make_request_with_retry_def)
qed

theorem only_HTTPError_is_retried_witness:
  "http_failure (invalid_second 0) \<and>
   invalid_second 1 = Inl (ValidationError ''Invalid repository URL format'') \<and>
   pauses exact_arith default_retry 0 1 \<and>
   request_with_retry 3 invalid_second =
     ([Call 0, Sleep 1, Call 1], Raises (ValidationError ''Invalid repository URL format'')) \<and>
   make_request_with_retry exact_arith default_retry invalid_second =
     ([Call 0, Sleep 1, Call 1], Raises (ValidationError ''Invalid repository URL format'')) \<and>
   always_422 0 = Inl (HTTPStatusError 422 ''Unprocessable Entity'') \<and>
   Suc 0 \<in> set (calls (fst (request_with_retry 3 always_422))) \<and>
   Suc 0 \<in> set (calls (fst (make_request_with_retry exact_arith default_retry always_422)))"
proof -
  have pre: "\<forall>j<1. http_failure (invalid_second j)"
    and out: "invalid_second 1 = Inl (ValidationError ''Invalid repository URL format'')"
    and first: "http_failure (invalid_second 0)"
    by (simp_all add: invalid_second_def http_failure_def)
  have p0: "pauses exact_arith default_retry 0 1"
    by (simp add: pauses_def exact_arith_def default_retry_def)
  then have ps: "\<forall>j<1. pauses exact_arith default_retry j ((\<lambda>j. 1) j)"
    "\<forall>j\<le>0. pauses exact_arith default_retry j ((\<lambda>j. 1) j)"
    by simp_all
  from only_HTTPError_is_retried[OF pre out, of 3 default_retry exact_arith "\<lambda>j. 1"] ps(1)
  have "request_with_retry 3 invalid_second =
     ([Call 0, Sleep 1, Call 1], Raises (ValidationError ''Invalid repository URL format'')) \<and>
   make_request_with_retry exact_arith default_retry invalid_second =
     ([Call 0, Sleep 1, Call 1], Raises (ValidationError ''Invalid repository URL format''))"
    by (simp add: default_retry_def retried_def)
  moreover
  have pre0: "\<forall>j<0. http_failure (always_422 j)"
    and out0: "always_422 0 = Inl (HTTPStatusError 422 ''Unprocessable Entity'')"
    by (simp_all add: always_422_def)
  from only_HTTPError_is_retried[OF pre0 out0, of 3 default_retry exact_arith "\<lambda>j. 1"] ps(2)
  have "Suc 0 \<in> set (calls (fst (request_with_retry 3 always_422))) \<and>
   Suc 0 \<in> set (calls (fst (make_request_with_retry exact_arith default_retry always_422)))"
    by (simp add: default_retry_def)
  ultimately show ?thesis using first out p0 out0 by simp
qed

section \<open>Properties of the batcher\<close>

lemmas batcher_defs = init_batcher_def add_request_def create_task_def cancel_task_def

lemma two_submits_eq:
  "two_submits =
     \<lparr> batch_size = 2, batch_window = 1 / 10, pending_requests = [(''a'', 0), (''b'', 1)],
       batch_task = Some 1, sleeping = [(1, 1 / 10)], next_task = 2, next_future = 2,
       futures = (\<lambda>f. Pending) \<rparr>"
  by (simp add: two_submits_def batcher_defs Let_def fun_upd_idem)

text \<open>
  Claim C4 on a batcher with \<open>batch_size = 2\<close> and \<open>batch_window = 0.1\<close>. After two
  requests at time 0 the pending list has reached the batch size and still holds both
  requests: \<open>add_request\<close> has cancelled the first flush task and started a new one,
  whose first statement is the sleep of \<open>batch_window\<close>. No flush can run at time 0;
  the flush runs at time 0.1. When the second request comes at time 0.09, the flush of
  the full batch moves to time 0.19.
\<close>

theorem full_batch_waits_window:
  "map fst (pending_requests two_submits) = [''a'', ''b''] \<and>
   int (length (pending_requests two_submits)) = batch_size two_submits \<and>
   sleeping two_submits = [(1, 1 / 10)] \<and>
   due 0 two_submits = [] \<and>
   due (1 / 10) two_submits = [1] \<and>
   sleeping late_submit = [(1, 19 / 100)]"
  by (simp add: two_submits_eq late_submit_def batcher_defs Let_def due_def)

lemma add_request_only_schedules:
  "pending_requests (snd (add_request now r b)) = pending_requests b @ [(r, next_future b)] \<and>
   set (sleeping (snd (add_request now r b)))
     \<subseteq> insert (next_task b, now + batch_window b) (set (sleeping b))"
  by (auto simp: batcher_defs Let_def split: option.splits)

lemma set_results_other:
  "f \<notin> snd ` set batch \<Longrightarrow> set_results batch results fs f = fs f"
  by (induction batch results fs rule: set_results.induct) auto

lemma set_results_nth:
  assumes "distinct (map snd batch)" and "i < length batch" and "i < length results"
    and "fs (snd (batch ! i)) = Pending"
  shows "set_results batch results fs (snd (batch ! i)) = Result (results ! i)"
  using assms
proof (induction batch results fs arbitrary: i rule: set_results.induct)
  case (1 request future batch result results fs)
  define fs' where "fs' = (if \<not> future_done (fs future) then fs(future := Result result) else fs)"
  have step: "set_results ((request, future) # batch) (result # results) fs = set_results batch results fs'"
    by (simp add: fs'_def)
  from "1.prems"(1) have fresh: "future \<notin> snd ` set batch" and dist: "distinct (map snd batch)"
    by auto
  show ?case
  proof (cases i)
    case 0
    with "1.prems"(4) have "fs' future = Result result"
      by (simp add: fs'_def)
    with 0 fresh show ?thesis
      unfolding step by (simp add: set_results_other)
  next
    case (Suc j)
    with "1.prems" have j: "j < length batch" "j < length results" by auto
    then have "snd (batch ! j) \<in> snd ` set batch" by simp
    with fresh have neq: "snd (batch ! j) \<noteq> future" by auto
    with "1.prems"(4) Suc have "fs' (snd (batch ! j)) = Pending"
      by (simp add: fs'_def)
    from "1.IH"[folded fs'_def, OF dist j this] Suc show ?thesis
      unfolding step by simp
  qed
qed simp_all

lemma set_exceptions_other:
  "f \<notin> snd ` set batch \<Longrightarrow> set_exceptions batch e fs f = fs f"
  by (induction batch e fs rule: set_exceptions.induct) auto

lemma set_exceptions_nth:
  assumes "distinct (map snd batch)" and "i < length batch"
    and "fs (snd (batch ! i)) = Pending"
  shows "set_exceptions batch e fs (snd (batch ! i)) = Exception e"
  using assms
proof (induction batch e fs arbitrary: i rule: set_exceptions.induct)
  case (1 e fs)
  then show ?case by simp
next
  case (2 request future batch e fs)
  define fs' where "fs' = (if \<not> future_done (fs future) then fs(future := Exception e) else fs)"
  have step: "set_exceptions ((request, future) # batch) e fs = set_exceptions batch e fs'"
    by (simp add: fs'_def)
  from "2.prems"(1) have fresh: "future \<notin> snd ` set batch" and dist: "distinct (map snd batch)"
    by auto
  show ?case
  proof (cases i)
    case 0
    with "2.prems"(3) have "fs' future = Exception e"
      by (simp add: fs'_def)
    with 0 fresh show ?thesis
      unfolding step by (simp add: set_exceptions_other)
  next
    case (Suc j)
    with "2.prems" have j: "j < length batch" by auto
    then have "snd (batch ! j) \<in> snd ` set batch" by simp
    with fresh have neq: "snd (batch ! j) \<noteq> future" by auto
    with "2.prems"(3) Suc have "fs' (snd (batch ! j)) = Pending"
      by (simp add: fs'_def)
    from "2.IH"[folded fs'_def, OF dist j this] Suc show ?thesis
      unfolding step by simp
  qed
qed

lemma slice_split:
  "\<exists>k. slice_to n xs = take k xs \<and> slice_from n xs = drop k xs"
  by (auto simp: slice_to_def slice_from_def)

lemma next_batch_waiting:
  assumes "waiting b" and "i < length (next_batch b)"
  shows "distinct (map snd (next_batch b))"
    and "next_batch b ! i = pending_requests b ! i"
    and "futures b (snd (next_batch b ! i)) = Pending"
proof -
  obtain k where k: "next_batch b = take k (pending_requests b)"
    using slice_split[of "batch_size b" "pending_requests b"] by (auto simp: next_batch_def)
  from assms(1) show "distinct (map snd (next_batch b))"
    by (simp add: k waiting_def take_map[symmetric] distinct_take)
  from assms(2) show nth: "next_batch b ! i = pending_requests b ! i"
    by (simp add: k)
  from assms(2) have "i < length (pending_requests b)" by (simp add: k)
  with assms(1) show "futures b (snd (next_batch b ! i)) = Pending"
    unfolding nth by (cases "pending_requests b ! i") (force simp: waiting_def list_all_iff dest: nth_mem)
qed

lemma waiting_init: "waiting (init_batcher n w)"
  by (simp add: waiting_def init_batcher_def)

lemma waiting_add_request: "waiting b \<Longrightarrow> waiting (snd (add_request now r b))"
  by (fastforce simp: waiting_def batcher_defs Let_def list_all_iff split: option.splits)

lemma process_batch_futures:
  assumes "pending_requests b \<noteq> []"
  shows "futures (process_batch execute_batch t b) =
           (case execute_batch (map fst (next_batch b)) of
              Inr results \<Rightarrow> set_results (next_batch b) results (futures b)
            | Inl e \<Rightarrow> set_exceptions (next_batch b) e (futures b))"
  using assms by (simp add: process_batch_def next_batch_def Let_def split: sum.splits)

text \<open>
  Claim C5. Let the pending entries be waiting, and take a position \<open>i\<close> of the batch
  that a flush cuts off the pending list. The entry at position \<open>i\<close> of the batch is the
  entry at position \<open>i\<close> of the pending list, which is in submission order. If the one
  physical call for the batch returns a list of results that has position \<open>i\<close>, the
  future of that entry gets the result at position \<open>i\<close>; if the call raises \<open>e\<close>, the
  future gets the exception \<open>e\<close>, the same for every position.
\<close>

theorem batch_outcome_by_position:
  assumes "waiting b" and "i < length (next_batch b)"
  shows "next_batch b ! i = pending_requests b ! i \<and>
         (execute_batch (map fst (next_batch b)) = Inr results \<and> i < length results \<longrightarrow>
            futures (process_batch execute_batch t b) (snd (next_batch b ! i)) = Result (results ! i)) \<and>
         (execute_batch (map fst (next_batch b)) = Inl e \<longrightarrow>
            futures (process_batch execute_batch t b) (snd (next_batch b ! i)) = Exception e)"
proof -
  note nb = next_batch_waiting[OF assms]
  from assms(2) have ne: "pending_requests b \<noteq> []"
    by (auto simp: next_batch_def slice_to_def split: if_splits)
  have "futures (process_batch execute_batch t b) (snd (next_batch b ! i)) = Result (results ! i)"
    if "execute_batch (map fst (next_batch b)) = Inr results" and "i < length results"
    using that set_results_nth[of "next_batch b" i results "futures b"] nb(1,3) assms(2)
    by (simp only: process_batch_futures[OF ne] sum.case)
  moreover
  have "futures (process_batch execute_batch t b) (snd (next_batch b ! i)) = Exception e"
    if "execute_batch (map fst (next_batch b)) = Inl e"
    using that set_exceptions_nth[of "next_batch b" i "futures b" e] nb(1,3) assms(2)
    by (simp only: process_batch_futures[OF ne] sum.case)
  ultimately show ?thesis
    using nb(2) by blast
qed

lemma waiting_process_batch:
  assumes "waiting b"
  shows "waiting (process_batch execute_batch t b)"
proof (cases "pending_requests b = []")
  case True
  with assms show ?thesis
    by (simp add: process_batch_def waiting_def)
next
  case False
  obtain k where k: "next_batch b = take k (pending_requests b)"
      "slice_from (batch_size b) (pending_requests b) = drop k (pending_requests b)"
    using slice_split[of "batch_size b" "pending_requests b"] by (auto simp: next_batch_def)
  let ?b' = "process_batch execute_batch t b"
  have pend: "pending_requests ?b' = drop k (pending_requests b)"
    and nf: "next_future ?b' = next_future b"
    using False k(2) by (simp_all add: process_batch_def Let_def split: sum.splits)
  from assms have "distinct (map snd (take k (pending_requests b) @ drop k (pending_requests b)))"
    by (simp add: waiting_def)
  then have disj: "snd ` set (take k (pending_requests b)) \<inter> snd ` set (drop k (pending_requests b)) = {}"
    and dist: "distinct (map snd (drop k (pending_requests b)))"
    by (simp_all only: map_append distinct_append set_map)
  have same: "futures ?b' f = futures b f" if "f \<in> snd ` set (drop k (pending_requests b))" for f
  proof -
    from that disj have "f \<notin> snd ` set (next_batch b)" by (auto simp: k(1))
    then show ?thesis
      by (simp add: process_batch_futures[OF False] set_results_other set_exceptions_other
          split: sum.splits)
  qed
  have "list_all (\<lambda>(request, future). future < next_future b \<and> futures ?b' future = Pending)
          (drop k (pending_requests b))"
    unfolding list_all_iff
  proof
    fix x assume x: "x \<in> set (drop k (pending_requests b))"
    then have "x \<in> set (pending_requests b)" by (rule in_set_dropD)
    with assms have "snd x < next_future b \<and> futures b (snd x) = Pending"
      by (auto simp: waiting_def list_all_iff)
    moreover from x have "futures ?b' (snd x) = futures b (snd x)" by (intro same) auto
    ultimately show "case x of (request, future) \<Rightarrow> future < next_future b \<and> futures ?b' future = Pending"
      by (cases x) auto
  qed
  with dist show ?thesis
    unfolding waiting_def pend nf by simp
qed

lemma two_submits_waiting: "waiting two_submits"
  unfolding two_submits_def by (intro waiting_add_request waiting_init)

lemma two_submits_batch: "next_batch two_submits = [(''a'', 0), (''b'', 1)]"
  by (simp add: two_submits_eq next_batch_def slice_to_def)

theorem batch_outcome_by_position_witness:
  "waiting two_submits \<and> 1 < length (next_batch two_submits) \<and>
   pending_requests two_submits ! 1 = (''b'', 1) \<and>
   answer_all (map fst (next_batch two_submits)) = Inr [''done a'', ''done b''] \<and>
   futures (process_batch answer_all 1 two_submits) 1 = Result ''done b'' \<and>
   fail_all (map fst (next_batch two_submits)) = Inl (APIError ''backend down'') \<and>
   futures (process_batch fail_all 1 two_submits) 1 = Exception (APIError ''backend down'')"
proof -
  have len: "1 < length (next_batch two_submits)"
    by (simp add: two_submits_batch)
  have ok: "answer_all (map fst (next_batch two_submits)) = Inr [''done a'', ''done b'']"
    by (simp add: two_submits_batch answer_all_def)
  have bad: "fail_all (map fst (next_batch two_submits)) = Inl (APIError ''backend down'')"
    by (simp add: fail_all_def)
  have len2: "1 < length [''done a'', ''done b'']"
    by simp
  from batch_outcome_by_position[OF two_submits_waiting len, of answer_all "[''done a'', ''done b'']" 1
      "APIError ''backend down''"] ok len2
  have "next_batch two_submits ! 1 = pending_requests two_submits ! 1 \<and>
        futures (process_batch answer_all 1 two_submits) (snd (next_batch two_submits ! 1))
          = Result ([''done a'', ''done b''] ! 1)"
    by blast
  then have "pending_requests two_submits ! 1 = (''b'', 1) \<and>
        futures (process_batch answer_all 1 two_submits) 1 = Result ''done b''"
    unfolding two_submits_batch by simp
  moreover
  from batch_outcome_by_position[OF two_submits_waiting len, of fail_all "[]" 1
      "APIError ''backend down''"] bad
  have "futures (process_batch fail_all 1 two_submits) (snd (next_batch two_submits ! 1))
          = Exception (APIError ''backend down'')"
    by blast
  then have "futures (process_batch fail_all 1 two_submits) 1 = Exception (APIError ''backend down'')"
    unfolding two_submits_batch by simp
  ultimately show ?thesis
    using two_submits_waiting len ok bad by blast
qed

section \<open>Properties of RepositoryManager\<close>

lemma no_request_batcher:
  "getattr_self RepositoryManager_init ''request_batcher'' =
     Inl (AttributeError (quoted ''RepositoryManager'' @ '' object has no attribute '' @
                          quoted ''request_batcher''))"
  by (simp add: getattr_self_def RepositoryManager_init_def AsyncHTTPClient_init_def
      namespace_def RepositoryManager_body_def AsyncHTTPClient_body_def)

text \<open>
  Claim C10. The name \<open>batch_add_repositories\<close> is bound to the definition at line 469,
  \<open>__init__\<close> leaves no attribute \<open>request_batcher\<close>, and for every non-empty list of
  repositories the call raises \<open>AttributeError\<close> with no request submitted.
\<close>

theorem batch_add_repositories_raises:
  assumes "repositories \<noteq> []"
  shows "namespace RepositoryManager_body ''batch_add_repositories'' = Some 469 \<and>
         map_of RepositoryManager_init ''request_batcher'' = None \<and>
         batch_add_repositories RepositoryManager_init repositories =
           ([], Some (AttributeError (quoted ''RepositoryManager'' @
                        '' object has no attribute '' @ quoted ''request_batcher'')))"
proof -
  from assms obtain repo rest where "repositories = repo # rest"
    by (cases repositories) auto
  then have "batch_add_repositories RepositoryManager_init repositories =
           ([], Some (AttributeError (quoted ''RepositoryManager'' @
                        '' object has no attribute '' @ quoted ''request_batcher'')))"
    by (simp add: batch_add_repositories_def no_request_batcher)
  moreover have "namespace RepositoryManager_body ''batch_add_repositories'' = Some 469"
    by (simp add: namespace_def RepositoryManager_body_def)
  moreover have "map_of RepositoryManager_init ''request_batcher'' = None"
    by (simp add: RepositoryManager_init_def AsyncHTTPClient_init_def)
  ultimately show ?thesis by blast
qed

theorem batch_add_repositories_raises_witness:
  "one_repository \<noteq> [] \<and>
   batch_add_repositories RepositoryManager_init one_repository =
     ([], Some (AttributeError (quoted ''RepositoryManager'' @
                  '' object has no attribute '' @ quoted ''request_batcher'')))"
proof -
  have "one_repository \<noteq> []"
    by (simp add: one_repository_def)
  with batch_add_repositories_raises[OF this] show ?thesis
    by blast
qed

end
